theory Spec2Isabelle
  imports Main "HOL-Library.Word"
begin

unbundle bit_operations_syntax

section \<open>Machine types\<close>

text \<open>
  The C types of \<^verbatim>\<open>blokfs.c\<close> on an LP64 platform: \<^verbatim>\<open>int\<close> and \<^verbatim>\<open>mode_t\<close> are 32-bit
  words, \<^verbatim>\<open>size_t\<close>, \<^verbatim>\<open>ssize_t\<close>, \<^verbatim>\<open>dev_t\<close>, \<^verbatim>\<open>uint64_t\<close> and pointers are 64-bit words.
  Signed readings go through \<open>sint\<close> and the signed orderings \<open><s\<close> and \<open>\<le>s\<close>.
\<close>

type_synonym cint = "32 word"
type_synonym mode_t = "32 word"
type_synonym size_t = "64 word"
type_synonym ssize_t = "64 word"
type_synonym dev_t = "64 word"
type_synonym uint64_t = "64 word"
type_synonym ptr = "64 word"

section \<open>C strings and character arrays\<close>

text \<open>
  A character array is the list of its bytes; its length is its capacity. A C string
  is read from the bytes a pointer points to: everything before the first terminator.
\<close>

definition NUL :: char where
  "NUL = CHR 0x00"

definition c_str :: "char list \<Rightarrow> char list" where
  "c_str m = takeWhile (\<lambda>c. c \<noteq> NUL) m"

definition strlen :: "char list \<Rightarrow> nat" where
  "strlen m = length (c_str m)"

text \<open>
  \<^verbatim>\<open>strcpy(dst, src)\<close> writes the string and its terminator at the start of \<open>dst\<close>;
  \<^verbatim>\<open>strncat(dst, src, n)\<close> writes at most \<open>n\<close> bytes of \<open>src\<close> and a terminator at the
  terminator of \<open>dst\<close>. A write past the end of the array is undefined behaviour in C:
  the model returns \<open>None\<close> there.
\<close>

definition strcpy :: "char list \<Rightarrow> char list \<Rightarrow> char list option" where
  "strcpy dst src =
     (let n = strlen src
      in if n < length dst then Some (c_str src @ [NUL] @ drop (n + 1) dst) else None)"

definition strncat :: "char list \<Rightarrow> char list \<Rightarrow> nat \<Rightarrow> char list option" where
  "strncat dst src n =
     (let d = strlen dst; a = take n (c_str src)
      in if d + length a < length dst
         then Some (take d dst @ a @ [NUL] @ drop (d + length a + 1) dst)
         else None)"

text \<open>
  \<^verbatim>\<open>PATH_MAX\<close> comes from the platform's \<^verbatim>\<open><limits.h>\<close>; 4096 is its value on Linux.
\<close>

definition PATH_MAX :: nat where
  "PATH_MAX = 4096"

section \<open>The mount session and the path resolver\<close>

record fs_state =
  rootdir :: "char list"

text \<open>
  \<^verbatim>\<open>blok_fullpath(fpath, path)\<close>: \<^verbatim>\<open>strcpy(fpath, BLOK_DATA->rootdir)\<close>, then
  \<^verbatim>\<open>strncat(fpath, path, PATH_MAX)\<close>. The session \<^verbatim>\<open>BLOK_DATA\<close> is passed explicitly.
\<close>

definition blok_fullpath :: "fs_state \<Rightarrow> char list \<Rightarrow> char list \<Rightarrow> char list option" where
  "blok_fullpath st fpath path =
     (case strcpy fpath (rootdir st) of
        None \<Rightarrow> None
      | Some fpath1 \<Rightarrow> strncat fpath1 path PATH_MAX)"

text \<open>
  The handlers declare \<^verbatim>\<open>char fpath[PATH_MAX]\<close> on the stack. The contents of such an
  array are arbitrary before \<open>blok_fullpath\<close> fills it; the string it holds afterwards
  does not depend on them (lemma \<open>blok_fullpath_c_str\<close>), so the handlers start from
  an array of terminators.
\<close>

definition local_array :: "nat \<Rightarrow> char list" where
  "local_array n = replicate n NUL"

section \<open>The world of a handler\<close>

text \<open>
  The calls a handler makes to the underlying system, with their arguments. A path
  argument is recorded as the string the pointer holds.
\<close>

datatype syscall =
    Sys_lstat "char list"
  | Sys_fstat cint
  | Sys_readlink "char list" size_t
  | Sys_open "char list" cint "mode_t option"
  | Sys_close cint
  | Sys_mkfifo "char list" mode_t
  | Sys_mknod "char list" mode_t dev_t
  | Sys_opendir "char list"
  | Sys_readdir ptr
  | Sys_closedir ptr

text \<open>
  An open directory stream is what \<^verbatim>\<open>readdir\<close> will still deliver: entries, and read
  errors with their error code.
\<close>

datatype dstep = Entry "char list" | ReadError cint

text \<open>
  The state a handler can see or change: the thread-local \<^verbatim>\<open>errno\<close>, the underlying
  calls made so far, and the open directory streams by their \<^verbatim>\<open>DIR *\<close>.
\<close>

record world =
  errno :: cint
  trace :: "syscall list"
  dirs :: "ptr \<Rightarrow> dstep list option"

text \<open>
  \<^verbatim>\<open>struct stat\<close>, two of its fields standing for all of them, and
  \<^verbatim>\<open>struct fuse_file_info\<close> with the fields the handlers use.
\<close>

record stat =
  st_mode :: mode_t
  st_size :: "64 word"

record fuse_file_info =
  flags :: cint
  fh :: uint64_t

text \<open>
  The underlying filesystem is an external collaborator: the outcome of each call is
  whatever the kernel decides, given the calls made before and the arguments.
  \<open>Inl e\<close> is a failure with error code \<open>e\<close>, \<open>Inr v\<close> a success delivering \<open>v\<close>.
\<close>

type_synonym 'a sysres = "cint + 'a"

record kernel =
  k_lstat :: "syscall list \<Rightarrow> char list \<Rightarrow> stat sysres"
  k_fstat :: "syscall list \<Rightarrow> cint \<Rightarrow> stat sysres"
  k_readlink :: "syscall list \<Rightarrow> char list \<Rightarrow> size_t \<Rightarrow> char list sysres"
  k_open :: "syscall list \<Rightarrow> char list \<Rightarrow> cint \<Rightarrow> mode_t option \<Rightarrow> cint sysres"
  k_close :: "syscall list \<Rightarrow> cint \<Rightarrow> unit sysres"
  k_mkfifo :: "syscall list \<Rightarrow> char list \<Rightarrow> mode_t \<Rightarrow> unit sysres"
  k_mknod :: "syscall list \<Rightarrow> char list \<Rightarrow> mode_t \<Rightarrow> dev_t \<Rightarrow> unit sysres"
  k_opendir :: "syscall list \<Rightarrow> char list \<Rightarrow> (ptr \<times> dstep list) sysres"
  k_closedir :: "syscall list \<Rightarrow> ptr \<Rightarrow> unit sysres"

section \<open>The C library calls\<close>

text \<open>
  A library call records itself; on failure it stores the error code in \<^verbatim>\<open>errno\<close> and
  returns \<open>-1\<close> (or a null pointer), on success it leaves \<^verbatim>\<open>errno\<close> alone.
\<close>

definition record_call :: "syscall \<Rightarrow> world \<Rightarrow> world" where
  "record_call c w = w\<lparr>trace := trace w @ [c]\<rparr>"

definition sys_status :: "syscall \<Rightarrow> unit sysres \<Rightarrow> world \<Rightarrow> cint \<times> world" where
  "sys_status c r w =
     (case r of
        Inl e \<Rightarrow> (- 1, record_call c (w\<lparr>errno := e\<rparr>))
      | Inr u \<Rightarrow> (0, record_call c w))"

definition sys_close :: "kernel \<Rightarrow> cint \<Rightarrow> world \<Rightarrow> cint \<times> world" where
  "sys_close K fd w = sys_status (Sys_close fd) (k_close K (trace w) fd) w"

definition sys_mkfifo :: "kernel \<Rightarrow> char list \<Rightarrow> mode_t \<Rightarrow> world \<Rightarrow> cint \<times> world" where
  "sys_mkfifo K p m w =
     sys_status (Sys_mkfifo (c_str p) m) (k_mkfifo K (trace w) (c_str p) m) w"

definition sys_mknod :: "kernel \<Rightarrow> char list \<Rightarrow> mode_t \<Rightarrow> dev_t \<Rightarrow> world \<Rightarrow> cint \<times> world" where
  "sys_mknod K p m d w =
     sys_status (Sys_mknod (c_str p) m d) (k_mknod K (trace w) (c_str p) m d) w"

definition sys_open :: "kernel \<Rightarrow> char list \<Rightarrow> cint \<Rightarrow> mode_t option \<Rightarrow> world \<Rightarrow> cint \<times> world" where
  "sys_open K p fl mo w =
     (case k_open K (trace w) (c_str p) fl mo of
        Inl e \<Rightarrow> (- 1, record_call (Sys_open (c_str p) fl mo) (w\<lparr>errno := e\<rparr>))
      | Inr fd \<Rightarrow> (fd, record_call (Sys_open (c_str p) fl mo) w))"

definition sys_lstat :: "kernel \<Rightarrow> char list \<Rightarrow> stat \<Rightarrow> world \<Rightarrow> cint \<times> stat \<times> world" where
  "sys_lstat K p statbuf w =
     (case k_lstat K (trace w) (c_str p) of
        Inl e \<Rightarrow> (- 1, statbuf, record_call (Sys_lstat (c_str p)) (w\<lparr>errno := e\<rparr>))
      | Inr sb \<Rightarrow> (0, sb, record_call (Sys_lstat (c_str p)) w))"

definition sys_fstat :: "kernel \<Rightarrow> cint \<Rightarrow> stat \<Rightarrow> world \<Rightarrow> cint \<times> stat \<times> world" where
  "sys_fstat K fd statbuf w =
     (case k_fstat K (trace w) fd of
        Inl e \<Rightarrow> (- 1, statbuf, record_call (Sys_fstat fd) (w\<lparr>errno := e\<rparr>))
      | Inr sb \<Rightarrow> (0, sb, record_call (Sys_fstat fd) w))"

text \<open>
  \<^verbatim>\<open>readlink(path, buf, bufsiz)\<close> copies the contents of the link into \<open>buf\<close>, at most
  \<open>bufsiz\<close> bytes and without a terminator, and returns the number of bytes copied.
  Copying past the end of \<open>buf\<close> is undefined behaviour.
\<close>

definition sys_readlink ::
  "kernel \<Rightarrow> char list \<Rightarrow> char list \<Rightarrow> size_t \<Rightarrow> world \<Rightarrow> (ssize_t \<times> char list \<times> world) option" where
  "sys_readlink K p buf bufsiz w =
     (case k_readlink K (trace w) (c_str p) bufsiz of
        Inl e \<Rightarrow> Some (- 1, buf, record_call (Sys_readlink (c_str p) bufsiz) (w\<lparr>errno := e\<rparr>))
      | Inr target \<Rightarrow>
          (let n = min (unat bufsiz) (length target)
           in if n \<le> length buf
              then Some (of_nat n, take n target @ drop n buf,
                         record_call (Sys_readlink (c_str p) bufsiz) w)
              else None))"

text \<open>
  \<^verbatim>\<open>opendir\<close> returns a new stream or a null pointer; \<^verbatim>\<open>readdir\<close> delivers the next entry
  of the stream, or a null pointer at its end (leaving \<^verbatim>\<open>errno\<close> alone) or on a read
  error (setting it); \<^verbatim>\<open>closedir\<close> frees the stream. Using a pointer that is not an open
  stream is undefined behaviour.
\<close>

definition sys_opendir :: "kernel \<Rightarrow> char list \<Rightarrow> world \<Rightarrow> ptr \<times> world" where
  "sys_opendir K p w =
     (case k_opendir K (trace w) (c_str p) of
        Inl e \<Rightarrow> (0, record_call (Sys_opendir (c_str p)) (w\<lparr>errno := e\<rparr>))
      | Inr (dp, steps) \<Rightarrow>
          (dp, record_call (Sys_opendir (c_str p)) (w\<lparr>dirs := (dirs w)(dp \<mapsto> steps)\<rparr>)))"

definition sys_readdir :: "ptr \<Rightarrow> world \<Rightarrow> (char list option \<times> world) option" where
  "sys_readdir dp w =
     (case dirs w dp of
        None \<Rightarrow> None
      | Some [] \<Rightarrow> Some (None, record_call (Sys_readdir dp) w)
      | Some (Entry d_name # rest) \<Rightarrow>
          Some (Some d_name, record_call (Sys_readdir dp) (w\<lparr>dirs := (dirs w)(dp \<mapsto> rest)\<rparr>))
      | Some (ReadError e # rest) \<Rightarrow>
          Some (None, record_call (Sys_readdir dp)
                        (w\<lparr>errno := e, dirs := (dirs w)(dp \<mapsto> rest)\<rparr>)))"

definition sys_closedir :: "kernel \<Rightarrow> ptr \<Rightarrow> world \<Rightarrow> (cint \<times> world) option" where
  "sys_closedir K dp w =
     (case dirs w dp of
        None \<Rightarrow> None
      | Some steps \<Rightarrow>
          Some (sys_status (Sys_closedir dp) (k_closedir K (trace w) dp)
                  (w\<lparr>dirs := (dirs w)(dp := None)\<rparr>)))"

section \<open>Constants of the system headers\<close>

text \<open>
  The values of \<^verbatim>\<open><errno.h>\<close>, \<^verbatim>\<open><fcntl.h>\<close> and \<^verbatim>\<open><sys/stat.h>\<close> on Linux (the file-type
  masks are octal 0170000, 0100000 and 0010000).
\<close>

definition ENOMEM :: cint where "ENOMEM = 12"

definition O_WRONLY :: cint where "O_WRONLY = 1"
definition O_CREAT :: cint where "O_CREAT = 64"
definition O_EXCL :: cint where "O_EXCL = 128"

definition S_IFMT :: mode_t where "S_IFMT = 61440"
definition S_IFREG :: mode_t where "S_IFREG = 32768"
definition S_IFIFO :: mode_t where "S_IFIFO = 4096"

definition S_ISREG :: "mode_t \<Rightarrow> bool" where
  "S_ISREG m \<longleftrightarrow> m AND S_IFMT = S_IFREG"

definition S_ISFIFO :: "mode_t \<Rightarrow> bool" where
  "S_ISFIFO m \<longleftrightarrow> m AND S_IFMT = S_IFIFO"

section \<open>The result normalizer and the handlers\<close>

definition wrap_return_code :: "cint \<Rightarrow> world \<Rightarrow> cint" where
  "wrap_return_code real_code w = (if real_code <s 0 then - errno w else real_code)"

definition blok_getattr ::
  "kernel \<Rightarrow> fs_state \<Rightarrow> char list \<Rightarrow> stat \<Rightarrow> world \<Rightarrow> (cint \<times> stat \<times> world) option" where
  "blok_getattr K st path statbuf w =
     (case blok_fullpath st (local_array PATH_MAX) path of
        None \<Rightarrow> None
      | Some fpath \<Rightarrow>
          (case sys_lstat K fpath statbuf w of
             (r, statbuf1, w1) \<Rightarrow> Some (wrap_return_code r w1, statbuf1, w1)))"

text \<open>
  \<^verbatim>\<open>blok_readlink\<close>: the \<^verbatim>\<open>ssize_t\<close> result of \<^verbatim>\<open>readlink\<close> is converted to the \<^verbatim>\<open>int\<close>
  parameter of \<^verbatim>\<open>wrap_return_code\<close>; \<^verbatim>\<open>size - 1\<close> is computed in \<^verbatim>\<open>size_t\<close>
  (the parameter \<^verbatim>\<open>size\<close> is \<open>sz\<close> here).
\<close>

definition blok_readlink ::
  "kernel \<Rightarrow> fs_state \<Rightarrow> char list \<Rightarrow> char list \<Rightarrow> size_t \<Rightarrow> world
     \<Rightarrow> (cint \<times> char list \<times> world) option" where
  "blok_readlink K st path link sz w =
     (case blok_fullpath st (local_array PATH_MAX) path of
        None \<Rightarrow> None
      | Some fpath \<Rightarrow>
          (case sys_readlink K fpath link (sz - 1) w of
             None \<Rightarrow> None
           | Some (n, link1, w1) \<Rightarrow>
               (let retstat = wrap_return_code (ucast n) w1
                in if 0 \<le>s retstat
                   then (if nat (sint retstat) < length link1
                         then Some (0, link1[nat (sint retstat) := NUL], w1)
                         else None)
                   else Some (retstat, link1, w1))))"

definition blok_mknod ::
  "kernel \<Rightarrow> fs_state \<Rightarrow> char list \<Rightarrow> mode_t \<Rightarrow> dev_t \<Rightarrow> world \<Rightarrow> (cint \<times> world) option" where
  "blok_mknod K st path mode dev w =
     (case blok_fullpath st (local_array PATH_MAX) path of
        None \<Rightarrow> None
      | Some fpath \<Rightarrow>
          Some (if S_ISREG mode
                then (case sys_open K fpath (O_CREAT OR O_EXCL OR O_WRONLY) (Some mode) w of
                        (r, w1) \<Rightarrow>
                          (let retstat = wrap_return_code r w1
                           in if 0 \<le>s retstat
                              then (case sys_close K retstat w1 of
                                      (r2, w2) \<Rightarrow> (wrap_return_code r2 w2, w2))
                              else (retstat, w1)))
                else if S_ISFIFO mode
                then (case sys_mkfifo K fpath mode w of
                        (r, w1) \<Rightarrow> (wrap_return_code r w1, w1))
                else (case sys_mknod K fpath mode dev w of
                        (r, w1) \<Rightarrow> (wrap_return_code r w1, w1))))"

text \<open>
  \<^verbatim>\<open>blok_open\<close>: \<^verbatim>\<open>fi->fh = fd\<close> converts the \<^verbatim>\<open>int\<close> to \<^verbatim>\<open>uint64_t\<close>, extending its sign.
\<close>

definition blok_open ::
  "kernel \<Rightarrow> fs_state \<Rightarrow> char list \<Rightarrow> fuse_file_info \<Rightarrow> world
     \<Rightarrow> (cint \<times> fuse_file_info \<times> world) option" where
  "blok_open K st path fi w =
     (case blok_fullpath st (local_array PATH_MAX) path of
        None \<Rightarrow> None
      | Some fpath \<Rightarrow>
          (case sys_open K fpath (flags fi) None w of
             (r, w1) \<Rightarrow>
               (let fd = wrap_return_code r w1;
                    fi1 = fi\<lparr>fh := scast fd\<rparr>
                in if fd <s 0 then Some (- errno w1, fi1, w1) else Some (0, fi1, w1))))"

definition blok_flush :: "char list \<Rightarrow> fuse_file_info \<Rightarrow> world \<Rightarrow> cint \<times> world" where
  "blok_flush path fi w = (0, w)"

text \<open>
  \<^verbatim>\<open>blok_release\<close>: \<^verbatim>\<open>close(fi->fh)\<close> converts the \<^verbatim>\<open>uint64_t\<close> to the \<^verbatim>\<open>int\<close> parameter.
\<close>

definition blok_release :: "kernel \<Rightarrow> char list \<Rightarrow> fuse_file_info \<Rightarrow> world \<Rightarrow> cint \<times> world" where
  "blok_release K path fi w =
     (case sys_close K (ucast (fh fi)) w of (r, w1) \<Rightarrow> (wrap_return_code r w1, w1))"

definition blok_opendir ::
  "kernel \<Rightarrow> fs_state \<Rightarrow> char list \<Rightarrow> fuse_file_info \<Rightarrow> world
     \<Rightarrow> (cint \<times> fuse_file_info \<times> world) option" where
  "blok_opendir K st path fi w =
     (case blok_fullpath st (local_array PATH_MAX) path of
        None \<Rightarrow> None
      | Some fpath \<Rightarrow>
          (case sys_opendir K fpath w of
             (dp, w1) \<Rightarrow>
               (let fi1 = fi\<lparr>fh := dp\<rparr>
                in if dp = 0 then Some (- errno w1, fi1, w1) else Some (0, fi1, w1))))"

text \<open>
  \<^verbatim>\<open>blok_readdir\<close>: the reply buffer and the \<^verbatim>\<open>filler\<close> callback belong to the transport;
  \<open>filler buf name\<close> returns its result code and the buffer afterwards. The
  \<^verbatim>\<open>do ... while\<close> loop is \<open>readdir_loop\<close>, entered with the entry read last.
\<close>

function readdir_loop ::
  "('b \<Rightarrow> char list \<Rightarrow> cint \<times> 'b) \<Rightarrow> ptr \<Rightarrow> char list \<Rightarrow> 'b \<Rightarrow> world
     \<Rightarrow> (cint \<times> 'b \<times> world) option" where
  "readdir_loop filler dp d_name buf w =
     (case filler buf d_name of
        (r, buf1) \<Rightarrow>
          if r \<noteq> 0 then Some (- ENOMEM, buf1, w)
          else (case sys_readdir dp w of
                  None \<Rightarrow> None
                | Some (None, w1) \<Rightarrow> Some (0, buf1, w1)
                | Some (Some d_name1, w1) \<Rightarrow> readdir_loop filler dp d_name1 buf1 w1))"
  by pat_completeness auto

termination readdir_loop
  by (relation "measure (\<lambda>(filler, dp, d_name, buf, w).
                  case dirs w dp of None \<Rightarrow> 0 | Some steps \<Rightarrow> length steps)")
     (auto simp: sys_readdir_def record_call_def
           split: option.splits list.splits dstep.splits)

definition blok_readdir ::
  "char list \<Rightarrow> 'b \<Rightarrow> ('b \<Rightarrow> char list \<Rightarrow> cint \<times> 'b) \<Rightarrow> 64 word \<Rightarrow> fuse_file_info \<Rightarrow> world
     \<Rightarrow> (cint \<times> 'b \<times> world) option" where
  "blok_readdir path buf filler offset fi w =
     (let dp = fh fi
      in case sys_readdir dp w of
           None \<Rightarrow> None
         | Some (None, w1) \<Rightarrow> Some (- errno w1, buf, w1)
         | Some (Some d_name, w1) \<Rightarrow> readdir_loop filler dp d_name buf w1)"

definition blok_releasedir ::
  "kernel \<Rightarrow> char list \<Rightarrow> fuse_file_info \<Rightarrow> world \<Rightarrow> (cint \<times> world) option" where
  "blok_releasedir K path fi w =
     (case sys_closedir K (fh fi) w of
        None \<Rightarrow> None
      | Some (r, w1) \<Rightarrow> Some (0, w1))"

text \<open>
  \<^verbatim>\<open>blok_fgetattr\<close>: \<^verbatim>\<open>!strcmp(path, "/")\<close> holds when the string at \<open>path\<close> is \<^verbatim>\<open>"/"\<close>.
\<close>

definition blok_fgetattr ::
  "kernel \<Rightarrow> fs_state \<Rightarrow> char list \<Rightarrow> stat \<Rightarrow> fuse_file_info \<Rightarrow> world
     \<Rightarrow> (cint \<times> stat \<times> world) option" where
  "blok_fgetattr K st path statbuf fi w =
     (if c_str path = ''/''
      then blok_getattr K st path statbuf w
      else (case sys_fstat K (ucast (fh fi)) statbuf w of
              (retstat, statbuf1, w1) \<Rightarrow>
                if retstat <s 0 then Some (- errno w1, statbuf1, w1)
                else Some (retstat, statbuf1, w1)))"

section \<open>The transport's reply buffer\<close>

text \<open>
  What the \<^verbatim>\<open>filler\<close> callback makes of a list of names given to it in order, and whether
  it accepts (returns 0 for) the \<open>k\<close>-th of them, the names before it being in the
  buffer already.
\<close>

definition fill :: "('b \<Rightarrow> char list \<Rightarrow> cint \<times> 'b) \<Rightarrow> 'b \<Rightarrow> char list list \<Rightarrow> 'b" where
  "fill filler buf names = foldl (\<lambda>b d_name. snd (filler b d_name)) buf names"

definition accepts_at ::
  "('b \<Rightarrow> char list \<Rightarrow> cint \<times> 'b) \<Rightarrow> 'b \<Rightarrow> char list list \<Rightarrow> nat \<Rightarrow> bool" where
  "accepts_at filler buf names k \<longleftrightarrow>
     fst (filler (fill filler buf (take k names)) (names ! k)) = 0"

section \<open>Example environments\<close>

text \<open>
  Two kernels, a filler, a world and a session for the concrete instances below: a
  kernel where every call fails with a given error code, and one where every call
  succeeds (\<^verbatim>\<open>open\<close> delivering descriptor 0); a filler over a reply buffer that holds
  \<open>cap\<close> names, appending a name and returning 0 while there is room and returning 1
  when the buffer is full.
\<close>

definition kernel_failing :: "cint \<Rightarrow> kernel" where
  "kernel_failing e =
     \<lparr>k_lstat = (\<lambda>h p. Inl e), k_fstat = (\<lambda>h fd. Inl e),
      k_readlink = (\<lambda>h p n. Inl e), k_open = (\<lambda>h p fl mo. Inl e),
      k_close = (\<lambda>h fd. Inl e), k_mkfifo = (\<lambda>h p m. Inl e),
      k_mknod = (\<lambda>h p m d. Inl e), k_opendir = (\<lambda>h p. Inl e),
      k_closedir = (\<lambda>h dp. Inl e)\<rparr>"

definition kernel_ok :: kernel where
  "kernel_ok =
     \<lparr>k_lstat = (\<lambda>h p. Inr \<lparr>st_mode = 16877, st_size = 4096\<rparr>),
      k_fstat = (\<lambda>h fd. Inr \<lparr>st_mode = 33188, st_size = 11\<rparr>),
      k_readlink = (\<lambda>h p n. Inr ''/target/of/link''),
      k_open = (\<lambda>h p fl mo. Inr 0),
      k_close = (\<lambda>h fd. Inr ()), k_mkfifo = (\<lambda>h p m. Inr ()),
      k_mknod = (\<lambda>h p m d. Inr ()),
      k_opendir = (\<lambda>h p. Inr (4096, [Entry ''.'', Entry ''..'', Entry ''a''])),
      k_closedir = (\<lambda>h dp. Inr ())\<rparr>"

definition bounded_filler :: "nat \<Rightarrow> char list list \<Rightarrow> char list \<Rightarrow> cint \<times> char list list" where
  "bounded_filler cap buf d_name =
     (if length buf < cap then (0, buf @ [d_name]) else (1, buf))"

definition world0 :: world where
  "world0 = \<lparr>errno = 0, trace = [], dirs = Map.empty\<rparr>"

definition session0 :: fs_state where
  "session0 = \<lparr>rootdir = ''/srv/data''\<rparr>"

section \<open>The path resolver\<close>

lemma c_str_no_NUL: "NUL \<notin> set (c_str m)"
  unfolding c_str_def by (auto dest: set_takeWhileD)

lemma c_str_prefix_NUL: "NUL \<notin> set a \<Longrightarrow> c_str (a @ NUL # rest) = a"
  unfolding c_str_def by (induction a) auto

lemma c_str_id: "NUL \<notin> set a \<Longrightarrow> c_str a = a"
  unfolding c_str_def by (induction a) auto

lemma c_str_take_prefix: "take (length (c_str m)) m = c_str m"
  unfolding c_str_def by (induction m) auto

lemma strcpy_Some:
  "strlen src < length dst \<Longrightarrow>
   \<exists>b. strcpy dst src = Some b \<and> length b = length dst \<and> c_str b = c_str src"
  by (simp add: strcpy_def Let_def strlen_def c_str_prefix_NUL c_str_no_NUL)

lemma strncat_Some:
  assumes "strlen dst + strlen src < length dst" and "strlen src \<le> n"
  shows "\<exists>b. strncat dst src n = Some b \<and> length b = length dst
             \<and> c_str b = c_str dst @ c_str src"
proof -
  have t: "take n (c_str src) = c_str src"
    using assms(2) by (simp add: strlen_def)
  have nn: "NUL \<notin> set (c_str dst @ c_str src)"
    using c_str_no_NUL by simp
  have "c_str ((c_str dst @ c_str src) @ NUL # drop (strlen dst + strlen src + 1) dst)
        = c_str dst @ c_str src"
    using nn by (rule c_str_prefix_NUL)
  then show ?thesis
    using assms(1) t
    by (auto simp add: strncat_def Let_def c_str_take_prefix strlen_def)
qed

text \<open>
  Whatever the array held before, a root and a path that fit leave it holding the root
  followed by the path.
\<close>

lemma blok_fullpath_c_str:
  assumes "length fpath = PATH_MAX"
    and "strlen (rootdir st) + strlen path < PATH_MAX"
  shows "\<exists>b. blok_fullpath st fpath path = Some b \<and> length b = PATH_MAX
             \<and> c_str b = c_str (rootdir st) @ c_str path"
proof -
  from assms have "strlen (rootdir st) < length fpath" by simp
  from strcpy_Some [OF this] obtain b1 where
    b1: "strcpy fpath (rootdir st) = Some b1" "length b1 = length fpath"
        "c_str b1 = c_str (rootdir st)" by blast
  have "strlen b1 + strlen path < length b1" "strlen path \<le> PATH_MAX"
    using assms b1 by (simp_all add: strlen_def)
  from strncat_Some [OF this] obtain b where
    "strncat b1 path PATH_MAX = Some b" "length b = length b1"
    "c_str b = c_str b1 @ c_str path" by blast
  then show ?thesis using b1 assms by (simp add: blok_fullpath_def)
qed

text \<open>
  Claim C1. For a root and a virtual path that are C strings (no terminator inside) and
  whose combined length, with the terminator, fits in \<^verbatim>\<open>PATH_MAX\<close> bytes,
  \<open>blok_fullpath\<close> leaves in the array exactly the root followed by the path: the
  literal concatenation, with no segment collapsed and nothing else changed. The
  previous contents of the array do not matter.
\<close>

theorem blok_fullpath_concat:
  assumes "length fpath = PATH_MAX"
    and "NUL \<notin> set (rootdir st)" and "NUL \<notin> set path"
    and "length (rootdir st) + length path < PATH_MAX"
  shows "\<exists>b. blok_fullpath st fpath path = Some b \<and> c_str b = rootdir st @ path"
proof -
  have "strlen (rootdir st) + strlen path < PATH_MAX"
    using assms by (simp add: strlen_def c_str_id)
  from blok_fullpath_c_str [OF assms(1) this] show ?thesis
    using assms by (auto simp: c_str_id)
qed

theorem blok_fullpath_concat_witness:
  "length (local_array PATH_MAX) = PATH_MAX
   \<and> NUL \<notin> set (rootdir \<lparr>rootdir = ''/srv/data''\<rparr>) \<and> NUL \<notin> set ''/a/../b/./c''
   \<and> length (rootdir \<lparr>rootdir = ''/srv/data''\<rparr>) + length ''/a/../b/./c'' < PATH_MAX
   \<and> (\<exists>b. blok_fullpath \<lparr>rootdir = ''/srv/data''\<rparr> (local_array PATH_MAX) ''/a/../b/./c''
             = Some b
          \<and> c_str b = ''/srv/data/a/../b/./c'')"
proof -
  have h1: "length (local_array PATH_MAX) = PATH_MAX"
    by (simp add: local_array_def)
  have h2: "NUL \<notin> set (rootdir \<lparr>rootdir = ''/srv/data''\<rparr>)"
    by (simp add: NUL_def)
  have h3: "NUL \<notin> set ''/a/../b/./c''"
    by (simp add: NUL_def)
  have h4: "length (rootdir \<lparr>rootdir = ''/srv/data''\<rparr>) + length ''/a/../b/./c'' < PATH_MAX"
    by (simp add: PATH_MAX_def)
  show ?thesis
    using h1 h2 h3 h4 blok_fullpath_concat [OF h1 h2 h3 h4] by simp
qed

section \<open>The result normalizer\<close>

text \<open>
  Claim C3. For every raw result, \<open>wrap_return_code\<close> returns the negation of the
  current \<^verbatim>\<open>errno\<close> when the raw result is negative, and the raw result itself when it
  is not.
\<close>

theorem wrap_return_code_spec:
  "(sint real_code < 0 \<longrightarrow> wrap_return_code real_code w = - errno w)
   \<and> (0 \<le> sint real_code \<longrightarrow> wrap_return_code real_code w = real_code)"
  by (simp add: wrap_return_code_def word_sless_alt)

theorem wrap_return_code_spec_witness:
  "sint (- 1 :: cint) < 0
   \<and> wrap_return_code (- 1) \<lparr>errno = 2, trace = [], dirs = Map.empty\<rparr> = - 2
   \<and> 0 \<le> sint (5 :: cint)
   \<and> wrap_return_code 5 \<lparr>errno = 2, trace = [], dirs = Map.empty\<rparr> = 5"
  using wrap_return_code_spec [of "- 1" "\<lparr>errno = 2, trace = [], dirs = Map.empty\<rparr>"]
        wrap_return_code_spec [of 5 "\<lparr>errno = 2, trace = [], dirs = Map.empty\<rparr>"]
  by simp

section \<open>Signed results and the handlers' shared steps\<close>

lemma sint_neg_of_pos:
  fixes e :: cint
  assumes "0 <s e"
  shows "sint (- e) = - sint e" and "- e <s 0"
proof -
  have p: "0 < sint e" using assms by (simp add: word_sless_alt)
  have b: "sint e < 2 ^ 31" using sint_lt [of e] by simp
  have "sint (- e) = signed_take_bit 31 (- sint e)"
    by (simp add: sint_word_ariths)
  also have "\<dots> = - sint e"
    using p b by (intro signed_take_bit_int_eq_self) simp_all
  finally show "sint (- e) = - sint e" .
  then show "- e <s 0" using p by (simp add: word_sless_alt)
qed

lemma sint_scast_up: "sint (scast (x :: cint) :: uint64_t) = sint x"
  by (rule sint_up_scast) (simp add: is_up)

lemma neg_one_sless: "(- 1 :: cint) <s 0"
  by (simp add: word_sless_alt)

lemma wrap_fail: "wrap_return_code (- 1) w = - errno w"
  by (simp add: wrap_return_code_def neg_one_sless)

lemma wrap_ok: "0 \<le>s r \<Longrightarrow> wrap_return_code r w = r"
  by (auto simp add: wrap_return_code_def word_sless_alt word_sle_eq)

lemma fullpath_local:
  assumes "strlen (rootdir st) + strlen path < PATH_MAX"
  shows "\<exists>b. blok_fullpath st (local_array PATH_MAX) path = Some b
             \<and> c_str b = c_str (rootdir st) @ c_str path"
  using blok_fullpath_c_str [of "local_array PATH_MAX" st path] assms
  by (auto simp: local_array_def)

section \<open>open\<close>

text \<open>
  Claim C6. For a path that fits, \<open>blok_open\<close> stores the descriptor in the handle slot
  \<open>fh\<close> before interpreting it. When the underlying \<^verbatim>\<open>open\<close> succeeds with a descriptor
  \<open>fd\<close> (non-negative, 0 included) the call returns 0 and the slot holds \<open>fd\<close>, so
  descriptor 0 gives return 0 and slot 0. When it fails with an error code \<open>e\<close>
  (positive, as error codes are) the call returns the negative code \<open>- e\<close> and the slot
  holds \<open>- e\<close> extended to 64 bits: negative when read as signed, hence neither zero
  nor the slot's previous value.
\<close>

theorem blok_open_spec:
  assumes fits: "strlen (rootdir st) + strlen path < PATH_MAX"
  shows "(\<forall>fd. k_open K (trace w) (c_str (rootdir st) @ c_str path) (flags fi) None = Inr fd
              \<and> 0 \<le>s fd \<longrightarrow>
            (\<exists>w1. blok_open K st path fi w = Some (0, fi\<lparr>fh := scast fd\<rparr>, w1)
                 \<and> (fd = 0 \<longrightarrow> fh (fi\<lparr>fh := scast fd\<rparr>) = 0)))
       \<and> (\<forall>e. k_open K (trace w) (c_str (rootdir st) @ c_str path) (flags fi) None = Inl e
              \<and> 0 <s e \<longrightarrow>
            (\<exists>w1. blok_open K st path fi w = Some (- e, fi\<lparr>fh := scast (- e)\<rparr>, w1)
                 \<and> - e <s 0
                 \<and> sint (fh (fi\<lparr>fh := scast (- e)\<rparr>)) < 0))"
proof -
  from fullpath_local [OF fits] obtain b where
    b: "blok_fullpath st (local_array PATH_MAX) path = Some b"
       "c_str b = c_str (rootdir st) @ c_str path" by blast
  show ?thesis
  proof (intro conjI allI impI)
    fix fd
    assume "k_open K (trace w) (c_str (rootdir st) @ c_str path) (flags fi) None = Inr fd
            \<and> 0 \<le>s fd"
    then show "\<exists>w1. blok_open K st path fi w = Some (0, fi\<lparr>fh := scast fd\<rparr>, w1)
                 \<and> (fd = 0 \<longrightarrow> fh (fi\<lparr>fh := scast fd\<rparr>) = 0)"
      using b by (auto simp: blok_open_def sys_open_def wrap_ok Let_def word_sless_alt word_sle_eq)
  next
    fix e
    assume a: "k_open K (trace w) (c_str (rootdir st) @ c_str path) (flags fi) None = Inl e
               \<and> 0 <s e"
    then have n: "- e <s 0" "sint (- e) = - sint e" "0 < sint e"
      using sint_neg_of_pos [of e] by (simp_all add: word_sless_alt)
    show "\<exists>w1. blok_open K st path fi w = Some (- e, fi\<lparr>fh := scast (- e)\<rparr>, w1)
                 \<and> - e <s 0 \<and> sint (fh (fi\<lparr>fh := scast (- e)\<rparr>)) < 0"
      using a b n
      by (simp add: blok_open_def sys_open_def wrap_fail Let_def record_call_def sint_scast_up)
  qed
qed

theorem blok_open_spec_witness:
  "strlen (rootdir session0) + strlen ''/f'' < PATH_MAX
   \<and> k_open kernel_ok (trace world0) (c_str (rootdir session0) @ c_str ''/f'')
        (flags \<lparr>flags = 0, fh = 99\<rparr>) None = Inr 0
   \<and> (0 :: cint) \<le>s 0
   \<and> (\<exists>w1. blok_open kernel_ok session0 ''/f'' \<lparr>flags = 0, fh = 99\<rparr> world0
             = Some (0, \<lparr>flags = 0, fh = 0\<rparr>, w1))
   \<and> k_open (kernel_failing 2) (trace world0) (c_str (rootdir session0) @ c_str ''/f'')
        (flags \<lparr>flags = 0, fh = 99\<rparr>) None = Inl 2
   \<and> (0 :: cint) <s 2
   \<and> (\<exists>w1. blok_open (kernel_failing 2) session0 ''/f'' \<lparr>flags = 0, fh = 99\<rparr> world0
             = Some (- 2, \<lparr>flags = 0, fh = - 2\<rparr>, w1))"
proof -
  have h: "strlen (rootdir session0) + strlen ''/f'' < PATH_MAX"
    by (simp add: session0_def strlen_def c_str_def NUL_def PATH_MAX_def)
  have ok: "k_open kernel_ok (trace world0) (c_str (rootdir session0) @ c_str ''/f'')
        (flags \<lparr>flags = 0, fh = 99\<rparr>) None = Inr 0 \<and> (0 :: cint) \<le>s 0"
    by (simp add: kernel_ok_def)
  have bad: "k_open (kernel_failing 2) (trace world0) (c_str (rootdir session0) @ c_str ''/f'')
        (flags \<lparr>flags = 0, fh = 99\<rparr>) None = Inl 2 \<and> (0 :: cint) <s 2"
    by (simp add: kernel_failing_def word_sless_alt)
  show ?thesis
    using h ok bad
      blok_open_spec [OF h, of kernel_ok world0 "\<lparr>flags = 0, fh = 99\<rparr>"]
      blok_open_spec [OF h, of "kernel_failing 2" world0 "\<lparr>flags = 0, fh = 99\<rparr>"]
    by simp
qed

section \<open>mknod\<close>

lemma S_ISFIFO_not_REG: "S_ISFIFO m \<Longrightarrow> \<not> S_ISREG m"
  by (simp add: S_ISFIFO_def S_ISREG_def S_IFIFO_def S_IFREG_def)

lemma sys_status_trace: "sys_status c r w = (x, w1) \<Longrightarrow> trace w1 = trace w @ [c]"
  by (auto simp add: sys_status_def record_call_def split: sum.splits)

text \<open>
  Claim C7. For a path that fits, \<open>blok_mknod\<close> dispatches on the node type of the mode.
  A regular-file mode opens the real path with \<^verbatim>\<open>O_CREAT | O_EXCL | O_WRONLY\<close> and the
  given mode and, when that delivered a descriptor, closes the descriptor at once (when
  the open failed, nothing else is called and its error code is returned negated). A
  FIFO mode calls \<^verbatim>\<open>mkfifo\<close> and nothing else: \<^verbatim>\<open>mknod\<close> is not among the calls made.
  Any other mode calls \<^verbatim>\<open>mknod\<close> with the mode and the device.
\<close>

theorem blok_mknod_dispatch:
  assumes fits: "strlen (rootdir st) + strlen path < PATH_MAX"
  shows "\<exists>r w1. blok_mknod K st path mode dev w = Some (r, w1)
     \<and> (S_ISREG mode \<longrightarrow>
          (\<forall>fd. k_open K (trace w) (c_str (rootdir st) @ c_str path)
                  (O_CREAT OR O_EXCL OR O_WRONLY) (Some mode) = Inr fd \<and> 0 \<le>s fd \<longrightarrow>
                trace w1 = trace w @
                  [Sys_open (c_str (rootdir st) @ c_str path)
                     (O_CREAT OR O_EXCL OR O_WRONLY) (Some mode),
                   Sys_close fd])
        \<and> (\<forall>e. k_open K (trace w) (c_str (rootdir st) @ c_str path)
                  (O_CREAT OR O_EXCL OR O_WRONLY) (Some mode) = Inl e \<and> 0 <s e \<longrightarrow>
                r = - e \<and>
                trace w1 = trace w @
                  [Sys_open (c_str (rootdir st) @ c_str path)
                     (O_CREAT OR O_EXCL OR O_WRONLY) (Some mode)]))
     \<and> (S_ISFIFO mode \<longrightarrow>
          trace w1 = trace w @ [Sys_mkfifo (c_str (rootdir st) @ c_str path) mode]
          \<and> (\<forall>p m d. Sys_mknod p m d \<notin> set (drop (length (trace w)) (trace w1))))
     \<and> (\<not> S_ISREG mode \<and> \<not> S_ISFIFO mode \<longrightarrow>
          trace w1 = trace w @ [Sys_mknod (c_str (rootdir st) @ c_str path) mode dev])"
proof -
  from fullpath_local [OF fits] obtain b where
    b: "blok_fullpath st (local_array PATH_MAX) path = Some b"
       "c_str b = c_str (rootdir st) @ c_str path" by blast
  show ?thesis
  proof (cases "S_ISREG mode")
    case True
    then have nf: "\<not> S_ISFIFO mode" using S_ISFIFO_not_REG by blast
    show ?thesis
    proof (cases "k_open K (trace w) (c_str (rootdir st) @ c_str path)
                  (O_CREAT OR O_EXCL OR O_WRONLY) (Some mode)")
      case (Inl e)
      show ?thesis
      proof (cases "0 <s e")
        case pos: True
        then have "\<not> 0 \<le>s - e" using sint_neg_of_pos [of e]
          by (simp add: word_sle_eq word_sless_alt)
        then show ?thesis using True nf b Inl 
          by (simp add: blok_mknod_def sys_open_def wrap_fail record_call_def Let_def)
      next
        case False
        then show ?thesis using True nf b Inl 
          by (auto simp add: blok_mknod_def sys_open_def wrap_fail record_call_def Let_def split: prod.splits)
      qed
    next
      case (Inr fd)
      show ?thesis
      proof (cases "0 \<le>s fd")
        case ok: True
        then show ?thesis using True nf b Inr
          by (auto dest!: sys_status_trace simp add: blok_mknod_def sys_open_def wrap_ok record_call_def Let_def sys_close_def split: prod.splits)
      next
        case False
        then show ?thesis using True nf b Inr 
          by (auto simp add: blok_mknod_def sys_open_def record_call_def Let_def split: prod.splits)
      qed
    qed
  next
    case False
    then show ?thesis using b
      by (auto dest!: sys_status_trace simp add: blok_mknod_def sys_mkfifo_def sys_mknod_def split: prod.splits)
  qed
qed


theorem blok_mknod_dispatch_witness:
  "strlen (rootdir session0) + strlen ''/f'' < PATH_MAX
   \<and> S_ISREG 33188
   \<and> k_open kernel_ok (trace world0) (c_str (rootdir session0) @ c_str ''/f'')
        (O_CREAT OR O_EXCL OR O_WRONLY) (Some 33188) = Inr 0
   \<and> (0 :: cint) \<le>s 0
   \<and> (\<exists>r w1. blok_mknod kernel_ok session0 ''/f'' 33188 0 world0 = Some (r, w1)
          \<and> trace w1 = [Sys_open ''/srv/data/f'' 193 (Some 33188), Sys_close 0])
   \<and> k_open (kernel_failing 17) (trace world0) (c_str (rootdir session0) @ c_str ''/f'')
        (O_CREAT OR O_EXCL OR O_WRONLY) (Some 33188) = Inl 17
   \<and> (0 :: cint) <s 17
   \<and> (\<exists>w1. blok_mknod (kernel_failing 17) session0 ''/f'' 33188 0 world0 = Some (- 17, w1)
          \<and> trace w1 = [Sys_open ''/srv/data/f'' 193 (Some 33188)])
   \<and> S_ISFIFO 4516
   \<and> (\<exists>r w1. blok_mknod kernel_ok session0 ''/f'' 4516 0 world0 = Some (r, w1)
          \<and> trace w1 = [Sys_mkfifo ''/srv/data/f'' 4516])
   \<and> \<not> S_ISREG 8612 \<and> \<not> S_ISFIFO 8612
   \<and> (\<exists>r w1. blok_mknod kernel_ok session0 ''/f'' 8612 259 world0 = Some (r, w1)
          \<and> trace w1 = [Sys_mknod ''/srv/data/f'' 8612 259])"
proof -
  have h: "strlen (rootdir session0) + strlen ''/f'' < PATH_MAX"
    by (simp add: session0_def strlen_def c_str_def NUL_def PATH_MAX_def)
  have p: "c_str (rootdir session0) @ c_str ''/f'' = ''/srv/data/f''"
    by (simp add: session0_def c_str_def NUL_def)
  have fl: "O_CREAT OR O_EXCL OR O_WRONLY = 193"
    by (simp add: O_CREAT_def O_EXCL_def O_WRONLY_def)
  have m: "S_ISREG 33188" "S_ISFIFO 4516" "\<not> S_ISREG 8612" "\<not> S_ISFIFO 8612"
    by (simp_all add: S_ISREG_def S_ISFIFO_def S_IFMT_def S_IFREG_def S_IFIFO_def)
  have ok: "k_open kernel_ok (trace world0) (c_str (rootdir session0) @ c_str ''/f'')
        (O_CREAT OR O_EXCL OR O_WRONLY) (Some 33188) = Inr 0 \<and> (0 :: cint) \<le>s 0"
    by (simp add: kernel_ok_def)
  have bad: "k_open (kernel_failing 17) (trace world0) (c_str (rootdir session0) @ c_str ''/f'')
        (O_CREAT OR O_EXCL OR O_WRONLY) (Some 33188) = Inl 17 \<and> (0 :: cint) <s 17"
    by (simp add: kernel_failing_def word_sless_alt)
  have t: "trace world0 = []" by (simp add: world0_def)
  show ?thesis
    using h m ok bad
      blok_mknod_dispatch [OF h, of kernel_ok 33188 0 world0]
      blok_mknod_dispatch [OF h, of "kernel_failing 17" 33188 0 world0]
      blok_mknod_dispatch [OF h, of kernel_ok 4516 0 world0]
      blok_mknod_dispatch [OF h, of kernel_ok 8612 259 world0]
    unfolding p fl t
    by (auto)
qed

section \<open>fgetattr\<close>

text \<open>
  Claim C8. When the string at \<open>path\<close> is \<^verbatim>\<open>"/"\<close>, \<open>blok_fgetattr\<close> is \<open>blok_getattr\<close> on
  that path, whatever the file handle: for a root that fits, the one call made is
  \<^verbatim>\<open>lstat\<close> on the real root followed by \<^verbatim>\<open>"/"\<close>. For every other path the metadata comes
  from \<^verbatim>\<open>fstat\<close> on the descriptor in the handle, and the result is normalized as
  \<open>wrap_return_code\<close> does.
\<close>

theorem blok_fgetattr_spec:
  "(c_str path = ''/'' \<longrightarrow>
      blok_fgetattr K st path statbuf fi w = blok_getattr K st path statbuf w)
   \<and> (c_str path = ''/'' \<and> strlen (rootdir st) + strlen path < PATH_MAX \<longrightarrow>
      (\<exists>r statbuf1 w1. blok_fgetattr K st path statbuf fi w = Some (r, statbuf1, w1)
          \<and> trace w1 = trace w @ [Sys_lstat (c_str (rootdir st) @ ''/'')]))
   \<and> (c_str path \<noteq> ''/'' \<longrightarrow>
      blok_fgetattr K st path statbuf fi w =
        (case sys_fstat K (ucast (fh fi)) statbuf w of
           (r, statbuf1, w1) \<Rightarrow> Some (wrap_return_code r w1, statbuf1, w1)))"
proof (intro conjI impI)
  assume "c_str path = ''/''"
  then show "blok_fgetattr K st path statbuf fi w = blok_getattr K st path statbuf w"
    by (simp add: blok_fgetattr_def)
next
  assume a: "c_str path = ''/'' \<and> strlen (rootdir st) + strlen path < PATH_MAX"
  then obtain b where
    b: "blok_fullpath st (local_array PATH_MAX) path = Some b"
       "c_str b = c_str (rootdir st) @ c_str path"
    using fullpath_local [of st path] by blast
  show "\<exists>r statbuf1 w1. blok_fgetattr K st path statbuf fi w = Some (r, statbuf1, w1)
          \<and> trace w1 = trace w @ [Sys_lstat (c_str (rootdir st) @ ''/'')]"
    using a b
    by (auto simp: blok_fgetattr_def blok_getattr_def sys_lstat_def record_call_def
             split: sum.splits)
next
  assume "c_str path \<noteq> ''/''"
  then show "blok_fgetattr K st path statbuf fi w =
        (case sys_fstat K (ucast (fh fi)) statbuf w of
           (r, statbuf1, w1) \<Rightarrow> Some (wrap_return_code r w1, statbuf1, w1))"
    by (auto simp: blok_fgetattr_def wrap_return_code_def split: prod.splits)
qed

theorem blok_fgetattr_spec_witness:
  "c_str ''/'' = ''/''
   \<and> strlen (rootdir session0) + strlen ''/'' < PATH_MAX
   \<and> blok_fgetattr kernel_ok session0 ''/'' \<lparr>st_mode = 0, st_size = 0\<rparr> \<lparr>flags = 0, fh = 3\<rparr> world0
       = blok_getattr kernel_ok session0 ''/'' \<lparr>st_mode = 0, st_size = 0\<rparr> world0
   \<and> (\<exists>r statbuf1 w1.
         blok_fgetattr kernel_ok session0 ''/'' \<lparr>st_mode = 0, st_size = 0\<rparr> \<lparr>flags = 0, fh = 3\<rparr> world0
           = Some (r, statbuf1, w1)
         \<and> trace w1 = [Sys_lstat ''/srv/data/''])
   \<and> c_str ''/f'' \<noteq> ''/''
   \<and> blok_fgetattr kernel_ok session0 ''/f'' \<lparr>st_mode = 0, st_size = 0\<rparr> \<lparr>flags = 0, fh = 3\<rparr> world0
       = Some (0, \<lparr>st_mode = 33188, st_size = 11\<rparr>,
               \<lparr>errno = 0, trace = [Sys_fstat 3], dirs = Map.empty\<rparr>)
   \<and> blok_fgetattr (kernel_failing 9) session0 ''/f'' \<lparr>st_mode = 0, st_size = 0\<rparr>
         \<lparr>flags = 0, fh = 3\<rparr> world0
       = Some (- 9, \<lparr>st_mode = 0, st_size = 0\<rparr>,
               \<lparr>errno = 9, trace = [Sys_fstat 3], dirs = Map.empty\<rparr>)"
proof -
  have h1: "c_str ''/'' = ''/''" "c_str ''/f'' \<noteq> ''/''"
    by (simp_all add: c_str_def NUL_def)
  have h2: "strlen (rootdir session0) + strlen ''/'' < PATH_MAX"
    by (simp add: session0_def strlen_def c_str_def NUL_def PATH_MAX_def)
  have r: "c_str (rootdir session0) @ ''/'' = ''/srv/data/''"
    by (simp add: session0_def c_str_def NUL_def)
  have f1: "sys_fstat kernel_ok (ucast (fh \<lparr>flags = 0, fh = 3\<rparr>)) \<lparr>st_mode = 0, st_size = 0\<rparr> world0
          = (0, \<lparr>st_mode = 33188, st_size = 11\<rparr>,
               \<lparr>errno = 0, trace = [Sys_fstat 3], dirs = Map.empty\<rparr>)"
    by (simp add: sys_fstat_def kernel_ok_def world0_def record_call_def)
  have f2: "sys_fstat (kernel_failing 9) (ucast (fh \<lparr>flags = 0, fh = 3\<rparr>)) \<lparr>st_mode = 0, st_size = 0\<rparr> world0
          = (- 1, \<lparr>st_mode = 0, st_size = 0\<rparr>,
               \<lparr>errno = 9, trace = [Sys_fstat 3], dirs = Map.empty\<rparr>)"
    by (simp add: sys_fstat_def kernel_failing_def world0_def record_call_def)
  have t: "trace world0 @ [Sys_lstat ''/srv/data/''] = [Sys_lstat ''/srv/data/'']"
    by (simp add: world0_def)
  note root = blok_fgetattr_spec [of "''/''" kernel_ok session0 "\<lparr>st_mode = 0, st_size = 0\<rparr>"
                                   "\<lparr>flags = 0, fh = 3\<rparr>" world0]
  have a1: "blok_fgetattr kernel_ok session0 ''/'' \<lparr>st_mode = 0, st_size = 0\<rparr>
              \<lparr>flags = 0, fh = 3\<rparr> world0
            = blok_getattr kernel_ok session0 ''/'' \<lparr>st_mode = 0, st_size = 0\<rparr> world0"
    using root h1 by simp
  have a2: "\<exists>r statbuf1 w1.
         blok_fgetattr kernel_ok session0 ''/'' \<lparr>st_mode = 0, st_size = 0\<rparr> \<lparr>flags = 0, fh = 3\<rparr> world0
           = Some (r, statbuf1, w1)
         \<and> trace w1 = [Sys_lstat ''/srv/data/'']"
    using root h1 h2 unfolding r t by blast
  have a3: "blok_fgetattr kernel_ok session0 ''/f'' \<lparr>st_mode = 0, st_size = 0\<rparr>
              \<lparr>flags = 0, fh = 3\<rparr> world0
       = Some (0, \<lparr>st_mode = 33188, st_size = 11\<rparr>,
               \<lparr>errno = 0, trace = [Sys_fstat 3], dirs = Map.empty\<rparr>)"
    using h1 blok_fgetattr_spec [of "''/f''" kernel_ok session0 "\<lparr>st_mode = 0, st_size = 0\<rparr>"
                                    "\<lparr>flags = 0, fh = 3\<rparr>" world0]
    unfolding f1 by (simp add: wrap_return_code_def word_sless_alt)
  have a4: "blok_fgetattr (kernel_failing 9) session0 ''/f'' \<lparr>st_mode = 0, st_size = 0\<rparr>
         \<lparr>flags = 0, fh = 3\<rparr> world0
       = Some (- 9, \<lparr>st_mode = 0, st_size = 0\<rparr>,
               \<lparr>errno = 9, trace = [Sys_fstat 3], dirs = Map.empty\<rparr>)"
    using h1 blok_fgetattr_spec [of "''/f''" "kernel_failing 9" session0
                                    "\<lparr>st_mode = 0, st_size = 0\<rparr>" "\<lparr>flags = 0, fh = 3\<rparr>" world0]
    unfolding f2 by (simp add: wrap_return_code_def word_sless_alt)
  from h1 h2 a1 a2 a3 a4 show ?thesis by (intro conjI)
qed

section \<open>flush\<close>

text \<open>
  Claim C9. For every path and file handle, \<open>blok_flush\<close> returns 0 and leaves the
  world as it was: no underlying call is made (the calls recorded are the same as
  before) and \<^verbatim>\<open>errno\<close> is untouched, so it cannot fail.
\<close>

theorem blok_flush_noop:
  "blok_flush path fi w = (0, w)
   \<and> trace (snd (blok_flush path fi w)) = trace w
   \<and> errno (snd (blok_flush path fi w)) = errno w"
  by (simp add: blok_flush_def)

section \<open>release and releasedir\<close>

text \<open>
  Claim C2, at a failing close. Closing an open directory stream fails with error
  code 5 (an input/output error): \<open>blok_releasedir\<close> calls \<^verbatim>\<open>closedir\<close>, which stores the
  code in \<^verbatim>\<open>errno\<close>, and returns 0 all the same. \<open>blok_release\<close>, at the same failure
  of \<^verbatim>\<open>close\<close>, returns the negated code.
\<close>

theorem blok_releasedir_swallows_failure:
  "blok_releasedir (kernel_failing 5) ''/d'' \<lparr>flags = 0, fh = 4096\<rparr>
       (world0\<lparr>dirs := [4096 \<mapsto> []]\<rparr>)
     = Some (0, \<lparr>errno = 5, trace = [Sys_closedir 4096], dirs = Map.empty\<rparr>)
   \<and> blok_release (kernel_failing 5) ''/f'' \<lparr>flags = 0, fh = 3\<rparr> world0
     = (- 5, \<lparr>errno = 5, trace = [Sys_close 3], dirs = Map.empty\<rparr>)"
  by (simp add: blok_releasedir_def blok_release_def sys_closedir_def sys_close_def
                sys_status_def record_call_def kernel_failing_def world0_def wrap_fail)

section \<open>readdir at a null first entry\<close>

lemma sys_readdir_end:
  "dirs w dp = Some [] \<Longrightarrow> sys_readdir dp w = Some (None, record_call (Sys_readdir dp) w)"
  by (simp add: sys_readdir_def)

text \<open>
  Claim C10. When the first \<^verbatim>\<open>readdir\<close> of a call returns a null pointer, \<open>blok_readdir\<close>
  returns the negation of \<^verbatim>\<open>errno\<close> as it is after that call, and gives the filler
  nothing. At the end of a stream \<^verbatim>\<open>readdir\<close> does not set \<^verbatim>\<open>errno\<close>, so the value negated
  is the one left by whatever ran before (0 included, giving 0); on a read error it is
  that error's code. The two cases take the same branch.
\<close>

theorem blok_readdir_first_null:
  "(sys_readdir (fh fi) w = Some (None, w1) \<longrightarrow>
      blok_readdir path buf filler offset fi w = Some (- errno w1, buf, w1))
   \<and> (dirs w (fh fi) = Some [] \<longrightarrow>
      blok_readdir path buf filler offset fi w
        = Some (- errno w, buf, record_call (Sys_readdir (fh fi)) w))
   \<and> (dirs w (fh fi) = Some (ReadError e # rest) \<longrightarrow>
      (\<exists>w2. blok_readdir path buf filler offset fi w = Some (- e, buf, w2)))"
  by (auto simp: blok_readdir_def sys_readdir_def record_call_def Let_def)

theorem blok_readdir_first_null_witness:
  "sys_readdir (fh \<lparr>flags = 0, fh = 4096\<rparr>) \<lparr>errno = 2, trace = [], dirs = [4096 \<mapsto> []]\<rparr>
     = Some (None, \<lparr>errno = 2, trace = [Sys_readdir 4096], dirs = [4096 \<mapsto> []]\<rparr>)
   \<and> dirs \<lparr>errno = 2, trace = [], dirs = [4096 \<mapsto> []]\<rparr> (fh \<lparr>flags = 0, fh = 4096\<rparr>) = Some []
   \<and> blok_readdir ''/d'' ([] :: char list list) (\<lambda>b n. (0, b @ [n])) 0 \<lparr>flags = 0, fh = 4096\<rparr>
         \<lparr>errno = 2, trace = [], dirs = [4096 \<mapsto> []]\<rparr>
       = Some (- 2, [], \<lparr>errno = 2, trace = [Sys_readdir 4096], dirs = [4096 \<mapsto> []]\<rparr>)
   \<and> dirs \<lparr>errno = 0, trace = [], dirs = [4096 \<mapsto> [ReadError 5]]\<rparr> (fh \<lparr>flags = 0, fh = 4096\<rparr>)
       = Some [ReadError 5]
   \<and> (\<exists>w2. blok_readdir ''/d'' ([] :: char list list) (\<lambda>b n. (0, b @ [n])) 0 \<lparr>flags = 0, fh = 4096\<rparr>
         \<lparr>errno = 0, trace = [], dirs = [4096 \<mapsto> [ReadError 5]]\<rparr>
       = Some (- 5, [], w2))"
proof -
  have h1: "sys_readdir (fh \<lparr>flags = 0, fh = 4096\<rparr>) \<lparr>errno = 2, trace = [], dirs = [4096 \<mapsto> []]\<rparr>
     = Some (None, \<lparr>errno = 2, trace = [Sys_readdir 4096], dirs = [4096 \<mapsto> []]\<rparr>)"
    by (simp add: sys_readdir_def record_call_def)
  have h2: "dirs \<lparr>errno = 2, trace = [], dirs = [4096 \<mapsto> []]\<rparr> (fh \<lparr>flags = 0, fh = 4096\<rparr>) = Some []"
    by simp
  have h3: "dirs \<lparr>errno = 0, trace = [], dirs = [4096 \<mapsto> [ReadError 5]]\<rparr> (fh \<lparr>flags = 0, fh = 4096\<rparr>)
       = Some [ReadError 5]"
    by simp
  have a1: "blok_readdir ''/d'' ([] :: char list list) (\<lambda>b n. (0, b @ [n])) 0 \<lparr>flags = 0, fh = 4096\<rparr>
         \<lparr>errno = 2, trace = [], dirs = [4096 \<mapsto> []]\<rparr>
       = Some (- 2, [], \<lparr>errno = 2, trace = [Sys_readdir 4096], dirs = [4096 \<mapsto> []]\<rparr>)"
    using h1 blok_readdir_first_null [of "\<lparr>flags = 0, fh = 4096\<rparr>"
        "\<lparr>errno = 2, trace = [], dirs = [4096 \<mapsto> []]\<rparr>"
        "\<lparr>errno = 2, trace = [Sys_readdir 4096], dirs = [4096 \<mapsto> []]\<rparr>"
        "''/d''" "[] :: char list list" "\<lambda>b n. (0, b @ [n])" 0 5 "[]"]
    by simp
  have a2: "\<exists>w2. blok_readdir ''/d'' ([] :: char list list) (\<lambda>b n. (0, b @ [n])) 0 \<lparr>flags = 0, fh = 4096\<rparr>
         \<lparr>errno = 0, trace = [], dirs = [4096 \<mapsto> [ReadError 5]]\<rparr>
       = Some (- 5, [], w2)"
    using h3 blok_readdir_first_null [of "\<lparr>flags = 0, fh = 4096\<rparr>"
        "\<lparr>errno = 0, trace = [], dirs = [4096 \<mapsto> [ReadError 5]]\<rparr>"
        "\<lparr>errno = 2, trace = [Sys_readdir 4096], dirs = [4096 \<mapsto> []]\<rparr>"
        "''/d''" "[] :: char list list" "\<lambda>b n. (0, b @ [n])" 0 5 "[]"]
    by simp
  from h1 h2 a1 h3 a2 show ?thesis by (intro conjI)
qed

section \<open>readlink\<close>

lemma small_count:
  assumes "n < 2 ^ 31"
  shows "sint (ucast (of_nat n :: ssize_t) :: cint) = int n"
proof -
  have "take_bit 64 n = n"
    using assms by (intro take_bit_nat_eq_self) (simp add: order_less_trans [where y = "2 ^ 31"])
  then have u: "(ucast (of_nat n :: ssize_t) :: cint) = of_nat n"
    by (simp add: unsigned_of_nat)
  have "signed_take_bit 31 (int n) = int n"
    using assms by (intro signed_take_bit_int_eq_self) simp_all
  then show ?thesis
    unfolding u by (simp add: signed_of_nat)
qed

lemma readlink_store:
  assumes "n \<le> length target" and "n < length link"
  shows "(take n target @ drop n link)[n := NUL] = take n target @ NUL # drop (Suc n) link"
proof -
  have l: "length (take n target) = n" using assms by simp
  have d: "drop n link = link ! n # drop (Suc n) link"
    using assms by (simp add: Cons_nth_drop_Suc)
  have "(take n target @ drop n link)[n := NUL] = take n target @ (drop n link)[0 := NUL]"
    using l by (simp add: list_update_append)
  also have "\<dots> = take n target @ NUL # drop (Suc n) link"
    by (subst d) simp
  finally show ?thesis .
qed

text \<open>
  Claim C5. Take a path that fits, a buffer \<open>link\<close> of at least \<open>sz\<close> bytes with
  \<open>sz\<close> at least 1, and a link whose contents \<open>target\<close> the underlying \<^verbatim>\<open>readlink\<close>
  delivers, the number of bytes delivered fitting in an \<^verbatim>\<open>int\<close>. Then \<open>blok_readlink\<close>
  asks the primitive for \<open>sz - 1\<close> bytes, so at most \<open>sz - 1\<close> bytes \<open>n\<close> of the target
  are copied; the buffer afterwards holds these \<open>n\<close> bytes followed by a terminator at
  index \<open>n\<close>; and the call returns 0, not \<open>n\<close>. When the target has \<open>sz\<close> bytes or
  more, \<open>n\<close> is exactly \<open>sz - 1\<close>.
\<close>

theorem blok_readlink_spec:
  assumes fits: "strlen (rootdir st) + strlen path < PATH_MAX"
    and pos: "0 < sz" and cap: "unat sz \<le> length link"
    and ok: "k_readlink K (trace w) (c_str (rootdir st) @ c_str path) (sz - 1) = Inr target"
    and small: "min (unat sz - 1) (length target) < 2 ^ 31"
  shows "\<exists>n w1. n = min (unat sz - 1) (length target)
           \<and> blok_readlink K st path link sz w
               = Some (0, take n target @ NUL # drop (Suc n) link, w1)
           \<and> trace w1 = trace w @ [Sys_readlink (c_str (rootdir st) @ c_str path) (sz - 1)]
           \<and> unat (sz - 1) = unat sz - 1
           \<and> n \<le> unat sz - 1
           \<and> (unat sz \<le> length target \<longrightarrow> n = unat sz - 1)"
proof -
  from fullpath_local [OF fits] obtain b where
    b: "blok_fullpath st (local_array PATH_MAX) path = Some b"
       "c_str b = c_str (rootdir st) @ c_str path" by blast
  define n where "n = min (unat sz - 1) (length target)"
  have u: "unat (sz - 1) = unat sz - 1"
    using pos by (simp add: unat_minus_one)
  have z: "0 < unat sz" using pos by (simp add: unat_gt_0)
  have nl: "n < length link" "n \<le> length target" "n \<le> length link"
    using cap z by (simp_all add: n_def)
  have s: "sint (ucast (of_nat n :: ssize_t) :: cint) = int n"
    using small unfolding n_def [symmetric] by (rule small_count)
  then have nn: "\<not> (ucast (of_nat n :: ssize_t) :: cint) <s 0"
      "0 \<le>s (ucast (of_nat n :: ssize_t) :: cint)"
    by (simp_all add: word_sless_alt word_sle_eq)
  have rl: "sys_readlink K b link (sz - 1) w
      = Some (of_nat n, take n target @ drop n link,
              record_call (Sys_readlink (c_str (rootdir st) @ c_str path) (sz - 1)) w)"
    using ok b nl by (simp add: sys_readlink_def u n_def Let_def)
  have "blok_readlink K st path link sz w
          = Some (0, take n target @ NUL # drop (Suc n) link,
                  record_call (Sys_readlink (c_str (rootdir st) @ c_str path) (sz - 1)) w)"
    using b nl nn s
    by (simp add: blok_readlink_def rl wrap_return_code_def Let_def readlink_store)
  then show ?thesis
    using u n_def by (auto simp: record_call_def)
qed

theorem blok_readlink_spec_witness:
  "strlen (rootdir session0) + strlen ''/l'' < PATH_MAX
   \<and> (0 :: size_t) < 8
   \<and> unat (8 :: size_t) \<le> length ''xxxxxxxx''
   \<and> k_readlink kernel_ok (trace world0) (c_str (rootdir session0) @ c_str ''/l'') (8 - 1)
       = Inr ''/target/of/link''
   \<and> min (unat (8 :: size_t) - 1) (length ''/target/of/link'') < 2 ^ 31
   \<and> unat (8 :: size_t) \<le> length ''/target/of/link''
   \<and> (\<exists>w1. blok_readlink kernel_ok session0 ''/l'' ''xxxxxxxx'' 8 world0
              = Some (0, ''/target'' @ [NUL], w1)
          \<and> trace w1 = [Sys_readlink ''/srv/data/l'' 7])"
proof -
  have h1: "strlen (rootdir session0) + strlen ''/l'' < PATH_MAX"
    by (simp add: session0_def strlen_def c_str_def NUL_def PATH_MAX_def)
  have h2: "(0 :: size_t) < 8" by simp
  have h3: "unat (8 :: size_t) \<le> length ''xxxxxxxx''" by simp
  have h4: "k_readlink kernel_ok (trace world0) (c_str (rootdir session0) @ c_str ''/l'') (8 - 1)
       = Inr ''/target/of/link''"
    by (simp add: kernel_ok_def)
  have h5: "min (unat (8 :: size_t) - 1) (length ''/target/of/link'') < 2 ^ 31" by simp
  have h6: "unat (8 :: size_t) \<le> length ''/target/of/link''" by simp
  have p: "c_str (rootdir session0) @ c_str ''/l'' = ''/srv/data/l''"
    by (simp add: session0_def c_str_def NUL_def)
  have t: "trace world0 = []" by (simp add: world0_def)
  have "\<exists>w1. blok_readlink kernel_ok session0 ''/l'' ''xxxxxxxx'' 8 world0
              = Some (0, ''/target'' @ [NUL], w1)
          \<and> trace w1 = [Sys_readlink ''/srv/data/l'' 7]"
    using blok_readlink_spec [OF h1 h2 h3 h4 h5] h6 unfolding p t
    by auto
  with h1 h2 h3 h4 h5 h6 show ?thesis by (intro conjI)
qed

section \<open>readdir over a whole stream\<close>

lemma accepts_at_0: "accepts_at filler buf (n # ns) 0 \<longleftrightarrow> fst (filler buf n) = 0"
  by (simp add: accepts_at_def fill_def)

lemma accepts_at_Suc:
  "accepts_at filler buf (n # ns) (Suc k) \<longleftrightarrow> accepts_at filler (snd (filler buf n)) ns k"
  by (simp add: accepts_at_def fill_def)

lemma fill_Cons: "fill filler buf (n # ns) = fill filler (snd (filler buf n)) ns"
  by (simp add: fill_def)

lemma sys_readdir_entry:
  "dirs w dp = Some (Entry n # rest) \<Longrightarrow>
   \<exists>w1. sys_readdir dp w = Some (Some n, w1) \<and> dirs w1 dp = Some rest \<and> errno w1 = errno w"
  by (simp add: sys_readdir_def record_call_def)

lemma readdir_loop_unfold:
  "readdir_loop filler dp n buf w =
     (if fst (filler buf n) \<noteq> 0 then Some (- ENOMEM, snd (filler buf n), w)
      else (case sys_readdir dp w of
              None \<Rightarrow> None
            | Some (None, w1) \<Rightarrow> Some (0, snd (filler buf n), w1)
            | Some (Some d_name1, w1) \<Rightarrow> readdir_loop filler dp d_name1 (snd (filler buf n)) w1))"
proof (cases "filler buf n")
  case (Pair r b1)
  then show ?thesis
    by (subst readdir_loop.simps) (simp split: option.splits)
qed

lemma readdir_loop_accepted:
  assumes "dirs w dp = Some (map Entry names)"
    and "\<forall>k<length (n # names). accepts_at filler buf (n # names) k"
  shows "\<exists>w1. readdir_loop filler dp n buf w = Some (0, fill filler buf (n # names), w1)
              \<and> dirs w1 dp = Some [] \<and> errno w1 = errno w"
  using assms
proof (induction names arbitrary: n buf w)
  case Nil
  then have a: "fst (filler buf n) = 0" by (simp add: accepts_at_0)
  from Nil have e: "sys_readdir dp w = Some (None, record_call (Sys_readdir dp) w)"
    by (simp add: sys_readdir_end)
  show ?case
    by (subst readdir_loop_unfold)
       (use a e Nil.prems(1) in \<open>simp add: fill_def record_call_def\<close>)
next
  case (Cons m ms)
  from Cons.prems(2) have a: "fst (filler buf n) = 0"
    by (auto simp: accepts_at_0)
  from Cons.prems(2) have r: "\<forall>k<length (m # ms). accepts_at filler (snd (filler buf n)) (m # ms) k"
    by (auto simp: All_less_Suc2 accepts_at_Suc)
  from Cons.prems(1) sys_readdir_entry [of w dp m "map Entry ms"] obtain w0 where
    w0: "sys_readdir dp w = Some (Some m, w0)" "dirs w0 dp = Some (map Entry ms)"
        "errno w0 = errno w" by auto
  from Cons.IH [OF w0(2) r] obtain w1 where
    "readdir_loop filler dp m (snd (filler buf n)) w0
       = Some (0, fill filler (snd (filler buf n)) (m # ms), w1)"
    "dirs w1 dp = Some []" "errno w1 = errno w0" by blast
  then show ?case
    by (subst readdir_loop_unfold)
       (use a w0 in \<open>simp add: fill_Cons\<close>)
qed

lemma readdir_loop_rejected:
  assumes "dirs w dp = Some (map Entry names)"
    and "\<exists>k<length (n # names). \<not> accepts_at filler buf (n # names) k"
  shows "\<exists>b1 w1. readdir_loop filler dp n buf w = Some (- ENOMEM, b1, w1)"
  using assms
proof (induction names arbitrary: n buf w)
  case Nil
  then have a: "fst (filler buf n) \<noteq> 0" by (simp add: accepts_at_0)
  show ?case
    by (subst readdir_loop_unfold) (use a in simp)
next
  case (Cons m ms)
  show ?case
  proof (cases "fst (filler buf n) = 0")
    case False
    then show ?thesis
      by (subst readdir_loop_unfold) simp
  next
    case True
    from Cons.prems(2) obtain k where
      k: "k < length (n # m # ms)" "\<not> accepts_at filler buf (n # m # ms) k" by blast
    with True obtain j where j: "k = Suc j"
      by (cases k) (auto simp: accepts_at_0)
    with k have "j < length (m # ms)" "\<not> accepts_at filler (snd (filler buf n)) (m # ms) j"
      by (simp_all add: accepts_at_Suc)
    then have r: "\<exists>k<length (m # ms). \<not> accepts_at filler (snd (filler buf n)) (m # ms) k"
      by blast
    from Cons.prems(1) sys_readdir_entry [of w dp m "map Entry ms"] obtain w0 where
      w0: "sys_readdir dp w = Some (Some m, w0)" "dirs w0 dp = Some (map Entry ms)" by auto
    from Cons.IH [OF w0(2) r] obtain b1 w1 where
      "readdir_loop filler dp m (snd (filler buf n)) w0 = Some (- ENOMEM, b1, w1)" by blast
    then show ?thesis
      by (subst readdir_loop_unfold) (use True w0 in simp)
  qed
qed


lemma readdir_loop_first_reject:
  assumes "dirs w dp = Some (map Entry names)"
    and "k < length (n # names)"
    and "\<forall>j<k. accepts_at filler buf (n # names) j"
    and "\<not> accepts_at filler buf (n # names) k"
  shows "\<exists>w1. readdir_loop filler dp n buf w
                = Some (- ENOMEM,
                        snd (filler (fill filler buf (take k (n # names))) ((n # names) ! k)), w1)
              \<and> dirs w1 dp = Some (map Entry (drop k names))"
  using assms
proof (induction k arbitrary: n names buf w)
  case 0
  then have "fst (filler buf n) \<noteq> 0" by (simp add: accepts_at_0)
  then show ?case
    by (subst readdir_loop_unfold) (use 0 in \<open>simp add: fill_def\<close>)
next
  case (Suc k)
  from Suc.prems(2) obtain m ms where names: "names = m # ms"
    by (cases names) auto
  from Suc.prems(3) have a: "fst (filler buf n) = 0"
    by (auto simp: accepts_at_0)
  from Suc.prems(3) have r: "\<forall>j<k. accepts_at filler (snd (filler buf n)) (m # ms) j"
    using accepts_at_Suc [of filler buf n names] by (auto simp: names)
  from Suc.prems(4) have nr: "\<not> accepts_at filler (snd (filler buf n)) (m # ms) k"
    by (simp add: names accepts_at_Suc)
  from Suc.prems(2) have kl: "k < length (m # ms)" by (simp add: names)
  from Suc.prems(1) sys_readdir_entry [of w dp m "map Entry ms"] obtain w0 where
    w0: "sys_readdir dp w = Some (Some m, w0)" "dirs w0 dp = Some (map Entry ms)"
    by (auto simp: names)
  from Suc.IH [OF w0(2) kl r nr] obtain w1 where
    "readdir_loop filler dp m (snd (filler buf n)) w0
       = Some (- ENOMEM,
               snd (filler (fill filler (snd (filler buf n)) (take k (m # ms))) ((m # ms) ! k)), w1)"
    "dirs w1 dp = Some (map Entry (drop k ms))" by blast
  then show ?case
    by (subst readdir_loop_unfold) (use a w0 in \<open>simp add: names fill_Cons\<close>)
qed

text \<open>
  Claim C4 as it is stated fails where the filler refuses an entry because the reply
  buffer is full. A stream delivers \<^verbatim>\<open>.\<close>, \<^verbatim>\<open>..\<close>, \<^verbatim>\<open>a\<close>, \<^verbatim>\<open>b\<close> and each call has a reply
  buffer for two names. The first call reports \<^verbatim>\<open>.\<close> and \<^verbatim>\<open>..\<close>, reads \<^verbatim>\<open>a\<close>, is
  refused and returns \<open>- ENOMEM\<close>; the second call starts at \<^verbatim>\<open>b\<close>, reports it and
  exhausts the stream. The entry \<^verbatim>\<open>a\<close> is reported by neither.
\<close>

theorem blok_readdir_refused_entry_lost:
  "blok_readdir ''/d'' [] (bounded_filler 2) 0 \<lparr>flags = 0, fh = 4096\<rparr>
       \<lparr>errno = 0, trace = [],
        dirs = [4096 \<mapsto> [Entry ''.'', Entry ''..'', Entry ''a'', Entry ''b'']]\<rparr>
     = Some (- 12, [''.'', ''..''],
             \<lparr>errno = 0, trace = [Sys_readdir 4096, Sys_readdir 4096, Sys_readdir 4096],
              dirs = [4096 \<mapsto> [Entry ''b'']]\<rparr>)
   \<and> blok_readdir ''/d'' [] (bounded_filler 2) 0 \<lparr>flags = 0, fh = 4096\<rparr>
       \<lparr>errno = 0, trace = [Sys_readdir 4096, Sys_readdir 4096, Sys_readdir 4096],
        dirs = [4096 \<mapsto> [Entry ''b'']]\<rparr>
     = Some (0, [''b''],
             \<lparr>errno = 0,
              trace = [Sys_readdir 4096, Sys_readdir 4096, Sys_readdir 4096,
                       Sys_readdir 4096, Sys_readdir 4096],
              dirs = [4096 \<mapsto> []]\<rparr>)
   \<and> ''a'' \<notin> set ([''.'', ''..''] @ [''b''])"
  by (simp add: blok_readdir_def sys_readdir_def record_call_def bounded_filler_def
                readdir_loop.simps ENOMEM_def Let_def)

text \<open>
  Claim C4, amended. Take an open directory stream that will deliver the entries
  \<open>names\<close>, at least one, and no read error. If the filler accepts every entry in
  turn, one call of \<open>blok_readdir\<close> returns 0 having given the filler every name
  exactly once and in order (the buffer is \<open>fill filler buf names\<close>), the stream is
  exhausted, and a further call gives the filler nothing more. If the filler refuses
  an entry, the first such being the \<open>k\<close>-th, the call returns \<open>- ENOMEM\<close>; the buffer
  is what the filler left at its refusal, after the \<open>k\<close> entries before, and the
  stream stands after the refused entry. So whenever the filler refuses any entry
  the call returns \<open>- ENOMEM\<close>.
\<close>

theorem blok_readdir_listing:
  assumes "dirs w (fh fi) = Some (map Entry names)" and "names \<noteq> []"
  shows "((\<forall>k<length names. accepts_at filler buf names k) \<longrightarrow>
            (\<exists>w1. blok_readdir path buf filler offset fi w
                     = Some (0, fill filler buf names, w1)
                 \<and> dirs w1 (fh fi) = Some []
                 \<and> (\<forall>buf2. \<exists>w2. blok_readdir path buf2 filler offset fi w1
                                  = Some (- errno w1, buf2, w2))))
       \<and> (k < length names \<and> (\<forall>j<k. accepts_at filler buf names j)
            \<and> \<not> accepts_at filler buf names k \<longrightarrow>
            (\<exists>w1. blok_readdir path buf filler offset fi w
                     = Some (- ENOMEM,
                             snd (filler (fill filler buf (take k names)) (names ! k)), w1)
                 \<and> dirs w1 (fh fi) = Some (map Entry (drop (Suc k) names))))
       \<and> ((\<exists>k<length names. \<not> accepts_at filler buf names k) \<longrightarrow>
            (\<exists>b1 w1. blok_readdir path buf filler offset fi w = Some (- ENOMEM, b1, w1)))"
proof -
  from assms(2) obtain n ns where names: "names = n # ns" by (cases names) auto
  with assms(1) sys_readdir_entry [of w "fh fi" n "map Entry ns"] obtain w0 where
    w0: "sys_readdir (fh fi) w = Some (Some n, w0)" "dirs w0 (fh fi) = Some (map Entry ns)"
    by auto
  have run: "blok_readdir path buf filler offset fi w = readdir_loop filler (fh fi) n buf w0"
    using w0 by (simp add: blok_readdir_def Let_def)
  show ?thesis
  proof (intro conjI impI)
    assume "\<forall>k<length names. accepts_at filler buf names k"
    then have "\<forall>k<length (n # ns). accepts_at filler buf (n # ns) k"
      by (simp add: names)
    from readdir_loop_accepted [OF w0(2) this] obtain w1 where
      w1: "readdir_loop filler (fh fi) n buf w0 = Some (0, fill filler buf (n # ns), w1)"
          "dirs w1 (fh fi) = Some []" by blast
    have "\<forall>buf2. \<exists>w2. blok_readdir path buf2 filler offset fi w1 = Some (- errno w1, buf2, w2)"
      using w1(2) by (simp add: blok_readdir_def Let_def sys_readdir_end record_call_def)
    with w1 show "\<exists>w1. blok_readdir path buf filler offset fi w
                     = Some (0, fill filler buf names, w1)
                 \<and> dirs w1 (fh fi) = Some []
                 \<and> (\<forall>buf2. \<exists>w2. blok_readdir path buf2 filler offset fi w1
                                  = Some (- errno w1, buf2, w2))"
      unfolding run names by blast
  next
    assume a: "k < length names \<and> (\<forall>j<k. accepts_at filler buf names j)
               \<and> \<not> accepts_at filler buf names k"
    then have "k < length (n # ns)" "\<forall>j<k. accepts_at filler buf (n # ns) j"
      "\<not> accepts_at filler buf (n # ns) k"
      by (simp_all add: names)
    from readdir_loop_first_reject [OF w0(2) this]
    show "\<exists>w1. blok_readdir path buf filler offset fi w
                     = Some (- ENOMEM,
                             snd (filler (fill filler buf (take k names)) (names ! k)), w1)
                 \<and> dirs w1 (fh fi) = Some (map Entry (drop (Suc k) names))"
      unfolding run names by simp
  next
    assume "\<exists>k<length names. \<not> accepts_at filler buf names k"
    then have "\<exists>k<length (n # ns). \<not> accepts_at filler buf (n # ns) k"
      by (simp add: names)
    from readdir_loop_rejected [OF w0(2) this]
    show "\<exists>b1 w1. blok_readdir path buf filler offset fi w = Some (- ENOMEM, b1, w1)"
      unfolding run .
  qed
qed

theorem blok_readdir_listing_witness:
  "dirs \<lparr>errno = 0, trace = [], dirs = [4096 \<mapsto> map Entry [''.'', ''..'', ''a'', ''b'']]\<rparr>
        (fh \<lparr>flags = 0, fh = 4096\<rparr>) = Some (map Entry [''.'', ''..'', ''a'', ''b''])
   \<and> [''.'', ''..'', ''a'', ''b''] \<noteq> []
   \<and> accepts_at (bounded_filler 4) [] [''.'', ''..'', ''a'', ''b''] 0
   \<and> accepts_at (bounded_filler 4) [] [''.'', ''..'', ''a'', ''b''] 1
   \<and> accepts_at (bounded_filler 4) [] [''.'', ''..'', ''a'', ''b''] 2
   \<and> accepts_at (bounded_filler 4) [] [''.'', ''..'', ''a'', ''b''] 3
   \<and> (\<exists>w1. blok_readdir ''/d'' [] (bounded_filler 4) 0 \<lparr>flags = 0, fh = 4096\<rparr>
              \<lparr>errno = 0, trace = [], dirs = [4096 \<mapsto> map Entry [''.'', ''..'', ''a'', ''b'']]\<rparr>
            = Some (0, [''.'', ''..'', ''a'', ''b''], w1)
          \<and> dirs w1 4096 = Some [])
   \<and> (2 :: nat) < length [''.'', ''..'', ''a'', ''b'']
   \<and> accepts_at (bounded_filler 2) [] [''.'', ''..'', ''a'', ''b''] 0
   \<and> accepts_at (bounded_filler 2) [] [''.'', ''..'', ''a'', ''b''] 1
   \<and> \<not> accepts_at (bounded_filler 2) [] [''.'', ''..'', ''a'', ''b''] 2
   \<and> (\<exists>w1. blok_readdir ''/d'' [] (bounded_filler 2) 0 \<lparr>flags = 0, fh = 4096\<rparr>
              \<lparr>errno = 0, trace = [], dirs = [4096 \<mapsto> map Entry [''.'', ''..'', ''a'', ''b'']]\<rparr>
            = Some (- 12, [''.'', ''..''], w1)
          \<and> dirs w1 4096 = Some [Entry ''b''])
   \<and> (\<exists>k<length [''.'', ''..'', ''a'', ''b''].
         \<not> accepts_at (bounded_filler 2) [] [''.'', ''..'', ''a'', ''b''] k)
   \<and> (\<exists>b1 w1. blok_readdir ''/d'' [] (bounded_filler 2) 0 \<lparr>flags = 0, fh = 4096\<rparr>
              \<lparr>errno = 0, trace = [], dirs = [4096 \<mapsto> map Entry [''.'', ''..'', ''a'', ''b'']]\<rparr>
            = Some (- 12, b1, w1))"
proof -
  let ?names = "[''.'', ''..'', ''a'', ''b'']"
  let ?w = "\<lparr>errno = 0, trace = [], dirs = [4096 \<mapsto> map Entry ?names]\<rparr>"
  let ?fi = "\<lparr>flags = 0, fh = 4096\<rparr>"
  have h1: "dirs ?w (fh ?fi) = Some (map Entry ?names)" by simp
  have h2: "?names \<noteq> []" by simp
  have big: "accepts_at (bounded_filler 4) [] ?names 0" "accepts_at (bounded_filler 4) [] ?names 1"
    "accepts_at (bounded_filler 4) [] ?names 2" "accepts_at (bounded_filler 4) [] ?names 3"
    by (simp_all add: accepts_at_def fill_def bounded_filler_def)
  have all: "\<forall>k<length ?names. accepts_at (bounded_filler 4) [] ?names k"
  proof (intro allI impI)
    fix k :: nat assume "k < length ?names"
    then consider "k = 0" | "k = 1" | "k = 2" | "k = 3" by fastforce
    then show "accepts_at (bounded_filler 4) [] ?names k"
      using big by cases simp_all
  qed
  have small: "accepts_at (bounded_filler 2) [] ?names 0" "accepts_at (bounded_filler 2) [] ?names 1"
    "\<not> accepts_at (bounded_filler 2) [] ?names 2"
    by (simp_all add: accepts_at_def fill_def bounded_filler_def)
  have k2: "(2 :: nat) < length ?names" by simp
  have before: "\<forall>j<2. accepts_at (bounded_filler 2) [] ?names j"
  proof (intro allI impI)
    fix j :: nat assume "j < 2"
    then consider "j = 0" | "j = 1" by fastforce
    then show "accepts_at (bounded_filler 2) [] ?names j"
      using small by cases simp_all
  qed
  have some: "\<exists>k<length ?names. \<not> accepts_at (bounded_filler 2) [] ?names k"
    using small(3) k2 by blast
  have f: "fill (bounded_filler 4) [] ?names = ?names"
    by (simp add: fill_def bounded_filler_def)
  have g: "snd (bounded_filler 2 (fill (bounded_filler 2) [] (take 2 ?names)) (?names ! 2))
           = [''.'', ''..'']"
    by (simp add: fill_def bounded_filler_def)
  have d: "map Entry (drop (Suc 2) ?names) = [Entry ''b'']" by simp
  have a1: "\<exists>w1. blok_readdir ''/d'' [] (bounded_filler 4) 0 ?fi ?w = Some (0, ?names, w1)
          \<and> dirs w1 4096 = Some []"
    using blok_readdir_listing [OF h1 h2, of "bounded_filler 4" "[]" "''/d''" 0 0] all
    unfolding f by auto
  have a2: "\<exists>w1. blok_readdir ''/d'' [] (bounded_filler 2) 0 ?fi ?w
              = Some (- 12, [''.'', ''..''], w1)
          \<and> dirs w1 4096 = Some [Entry ''b'']"
    using blok_readdir_listing [OF h1 h2, of "bounded_filler 2" "[]" "''/d''" 0 2]
      k2 before small(3)
    unfolding g d ENOMEM_def by auto
  have a3: "\<exists>b1 w1. blok_readdir ''/d'' [] (bounded_filler 2) 0 ?fi ?w = Some (- 12, b1, w1)"
    using blok_readdir_listing [OF h1 h2, of "bounded_filler 2" "[]" "''/d''" 0 0] some
    unfolding ENOMEM_def by auto
  from h1 h2 big a1 k2 small a2 some a3 show ?thesis by (intro conjI)
qed

end
